theory Spec2Isabelle
  imports Main "HOL-Library.Sublist"
begin

section \<open>The parallel task-execution engine of \<^verbatim>\<open>parallel_processor.py\<close>\<close>

text \<open>
  The engine is an asyncio program: worker coroutines, the coroutine of a caller of
  \<^verbatim>\<open>execute_agents_parallel\<close> and \<^verbatim>\<open>cancel_session\<close> share one event loop and
  interleave only at their \<^verbatim>\<open>await\<close> points. The model is a step function on the engine
  state, one event per stretch of code between two suspension points, and a run is a list of
  events. Conventions of the embedding:
  \<^item> task objects and session contexts are Python objects shared by reference, so both
    live in a store (\<open>task_objs\<close>, \<open>session_objs\<close>) and lists hold references;
  \<^item> what an agent's \<^verbatim>\<open>execute\<close> and a progress callback do is outside the engine:
    their outcome arrives with the event that resumes the worker;
  \<^item> the registry lookup \<^verbatim>\<open>get_agent\<close> and the configuration of the logger are the
    two fields of an environment \<open>env\<close>; the placeholder lookup defined in the file itself
    is \<open>get_agent_stub\<close>;
  \<^item> the logger of the file is \<^verbatim>\<open>logging.getLogger(__name__)\<close> of the standard
    library, and most calls pass keyword arguments (\<^verbatim>\<open>session_id=...\<close>, \<^verbatim>\<open>error=...\<close>).
    Such a call returns without effect when its level is disabled and raises
    \<^verbatim>\<open>TypeError\<close> when it is enabled, since \<^verbatim>\<open>Logger._log\<close> accepts no such
    keywords; calls with a message only never raise and do not appear;
  \<^item> wall-clock time is a counter \<open>now\<close> advanced by the event \<open>Tick\<close>; the
    statistics that only accumulate elapsed floating-point seconds, and the session's
    own start and end stamps (read only to format a log line), are left out.
\<close>

subsection \<open>Data model\<close>

datatype StatusEnum = PENDING | RUNNING | COMPLETED | FAILED | CANCELLED

datatype PriorityEnum = LOW | NORMAL | HIGH | CRITICAL

fun priority_value :: "PriorityEnum \<Rightarrow> int" where
  "priority_value LOW = 1"
| "priority_value NORMAL = 5"
| "priority_value HIGH = 8"
| "priority_value CRITICAL = 10"

datatype AgentStatus =
  AGENT_PENDING | AGENT_RUNNING | AGENT_COMPLETED | AGENT_FAILED | AGENT_CANCELLED

text \<open>\<^verbatim>\<open>StatusEnum(result.status.value)\<close>: both enums carry the same five strings.\<close>

fun StatusEnum_of :: "AgentStatus \<Rightarrow> StatusEnum" where
  "StatusEnum_of AGENT_PENDING = PENDING"
| "StatusEnum_of AGENT_RUNNING = RUNNING"
| "StatusEnum_of AGENT_COMPLETED = COMPLETED"
| "StatusEnum_of AGENT_FAILED = FAILED"
| "StatusEnum_of AGENT_CANCELLED = CANCELLED"

type_synonym uuid = nat
type_synonym task_ref = nat
type_synonym ctx_ref = nat

text \<open>
  The strings that end up in \<open>error_message\<close>: the two messages the engine formats itself
  (with the session id, with the agent name), the text of the \<^verbatim>\<open>TypeError\<close> of a log
  call, and any text coming from an agent or from an exception.
\<close>

datatype message = SessionNotFound uuid | AgentNotFound string | LoggerTypeError | Text string

record SubAgentTaskModel =
  task_id :: uuid
  agent_name :: string
  priority :: PriorityEnum
  status :: StatusEnum
  input_data :: string
  output_data :: "string option"
  error_message :: "message option"
  start_time :: "nat option"
  end_time :: "nat option"

record AgentResult =
  result_status :: AgentStatus
  result_output_data :: "string option"
  result_error_message :: "message option"
  result_start_time :: "nat option"
  result_end_time :: "nat option"

text \<open>
  What awaiting \<^verbatim>\<open>agent_instance.execute(...)\<close> can do: return a result, raise an
  \<^verbatim>\<open>Exception\<close>, or raise something that \<^verbatim>\<open>except Exception\<close> does not catch (the
  \<^verbatim>\<open>CancelledError\<close> that \<^verbatim>\<open>BaseAgent.execute\<close> re-raises).
\<close>

datatype agent_outcome = Returned AgentResult | Raised message | RaisedBase

datatype agent_class = AgentClass string

definition get_agent_stub :: "string \<Rightarrow> agent_class option" where
  "get_agent_stub name = None"

text \<open>The levels at which the file logs, with their numeric values, and
  \<^verbatim>\<open>isEnabledFor\<close>: a level is enabled when it reaches the effective level of the
  logger (\<open>30\<close>, \<^verbatim>\<open>WARNING\<close>, unless the application configures logging).\<close>

datatype log_level = INFO | WARNING | ERROR

fun level_value :: "log_level \<Rightarrow> nat" where
  "level_value INFO = 20"
| "level_value WARNING = 30"
| "level_value ERROR = 40"

record environment =
  get_agent :: "string \<Rightarrow> agent_class option"
  effective_level :: nat

definition enabled :: "environment \<Rightarrow> log_level \<Rightarrow> bool" where
  "enabled env l = (effective_level env \<le> level_value l)"

record WorkerStats =
  worker_id :: nat
  tasks_completed :: nat
  tasks_failed :: nat
  current_task :: "string option"

text \<open>
  Where a worker coroutine is suspended: at the queue (\<open>Idle\<close>), at the acquisition of
  the semaphore (\<open>Waiting\<close>), just inside the guarded section (\<open>Entered\<close>), at the agent
  (\<open>Executing\<close>, holding the session context it looked up), at the progress callback
  (\<open>InCallback\<close>); or its loop has ended (\<open>Stopped\<close>) or was left by an exception
  (\<open>Crashed\<close>).
\<close>

datatype worker_phase =
    Idle
  | Waiting uuid task_ref
  | Entered uuid task_ref
  | Executing uuid task_ref ctx_ref
  | InCallback uuid task_ref ctx_ref
  | Stopped
  | Crashed

record worker =
  stats :: WorkerStats
  phase :: worker_phase

record SessionContext =
  session_id :: uuid
  tasks :: "task_ref list"
  completed_tasks :: "task_ref list"
  failed_tasks :: "task_ref list"
  is_cancelled :: bool
  progress_callback :: bool

record ParallelProcessor =
  max_workers :: nat
  semaphore :: nat
  task_queue :: "(uuid \<times> task_ref) option list"
  queue_size :: nat
  task_timeout :: nat
  active_sessions :: "uuid \<rightharpoonup> ctx_ref"
  session_objs :: "ctx_ref \<Rightarrow> SessionContext"
  next_ctx :: ctx_ref
  task_objs :: "task_ref \<Rightarrow> SubAgentTaskModel"
  workers :: "worker list"
  is_initialized :: bool
  is_running :: bool
  now :: nat

definition upd_task ::
  "task_ref \<Rightarrow> (SubAgentTaskModel \<Rightarrow> SubAgentTaskModel) \<Rightarrow> ParallelProcessor \<Rightarrow> ParallelProcessor" where
  "upd_task t f st = st\<lparr>task_objs := (task_objs st)(t := f (task_objs st t))\<rparr>"

definition upd_session ::
  "ctx_ref \<Rightarrow> (SessionContext \<Rightarrow> SessionContext) \<Rightarrow> ParallelProcessor \<Rightarrow> ParallelProcessor" where
  "upd_session c f st = st\<lparr>session_objs := (session_objs st)(c := f (session_objs st c))\<rparr>"

definition upd_worker ::
  "nat \<Rightarrow> (worker \<Rightarrow> worker) \<Rightarrow> ParallelProcessor \<Rightarrow> ParallelProcessor" where
  "upd_worker w f st = st\<lparr>workers := (workers st)[w := f (workers st ! w)]\<rparr>"

subsection \<open>Construction and start-up\<close>

definition empty_context :: SessionContext where
  "empty_context = \<lparr>session_id = 0, tasks = [], completed_tasks = [], failed_tasks = [],
     is_cancelled = False, progress_callback = False\<rparr>"

text \<open>\<^verbatim>\<open>__init__\<close>: the semaphore is sized by \<open>max_workers\<close>; \<open>objs\<close> are the task
  objects the program holds.\<close>

definition ParallelProcessor_init ::
  "nat \<Rightarrow> nat \<Rightarrow> nat \<Rightarrow> (task_ref \<Rightarrow> SubAgentTaskModel) \<Rightarrow> ParallelProcessor" where
  "ParallelProcessor_init n qs tt objs =
     \<lparr>max_workers = n, semaphore = n, task_queue = [], queue_size = qs, task_timeout = tt,
      active_sessions = Map.empty, session_objs = (\<lambda>c. empty_context), next_ctx = 0,
      task_objs = objs, workers = [], is_initialized = False, is_running = False, now = 0\<rparr>"

definition new_worker :: "nat \<Rightarrow> worker" where
  "new_worker i =
     \<lparr>stats = \<lparr>worker_id = i, tasks_completed = 0, tasks_failed = 0, current_task = None\<rparr>,
      phase = Idle\<rparr>"

text \<open>\<^verbatim>\<open>initialize\<close>: one statistics record and one worker loop per worker. The
  flags are set before the closing \<^verbatim>\<open>logger.info\<close> with keyword arguments, so the engine
  is initialized also when that call raises and \<^verbatim>\<open>initialize\<close> ends with an exception.\<close>

definition initialize :: "ParallelProcessor \<Rightarrow> ParallelProcessor" where
  "initialize st =
     st\<lparr>workers := map new_worker [0..<max_workers st], is_initialized := True,
        is_running := True\<rparr>"


subsection \<open>The worker: \<^verbatim>\<open>_worker_loop\<close> and \<^verbatim>\<open>_execute_task\<close>\<close>

text \<open>One turn of the loop head: the running flag, then the queue; \<open>None\<close> is the
  shutdown signal.\<close>

definition worker_loop_get :: "nat \<Rightarrow> ParallelProcessor \<Rightarrow> ParallelProcessor" where
  "worker_loop_get w st =
     (if \<not> is_running st then upd_worker w (\<lambda>wk. wk\<lparr>phase := Stopped\<rparr>) st
      else case task_queue st of
             [] \<Rightarrow> st
           | None # q \<Rightarrow> upd_worker w (\<lambda>wk. wk\<lparr>phase := Stopped\<rparr>) (st\<lparr>task_queue := q\<rparr>)
           | Some (sid, t) # q \<Rightarrow>
               upd_worker w (\<lambda>wk. wk\<lparr>phase := Waiting sid t\<rparr>) (st\<lparr>task_queue := q\<rparr>))"

text \<open>\<^verbatim>\<open>async with self.semaphore\<close>: entry waits until the counter is positive.\<close>

definition acquire :: "nat \<Rightarrow> uuid \<Rightarrow> task_ref \<Rightarrow> ParallelProcessor \<Rightarrow> ParallelProcessor" where
  "acquire w sid t st =
     (if 0 < semaphore st
      then upd_worker w (\<lambda>wk. wk\<lparr>phase := Entered sid t\<rparr>) (st\<lparr>semaphore := semaphore st - 1\<rparr>)
      else st)"

text \<open>The \<^verbatim>\<open>finally\<close> clause, the release of the semaphore on leaving the section,
  \<^verbatim>\<open>task_done\<close>, and back to the loop head.\<close>

definition finish_task :: "nat \<Rightarrow> ParallelProcessor \<Rightarrow> ParallelProcessor" where
  "finish_task w st =
     upd_worker w (\<lambda>wk. wk\<lparr>stats := (stats wk)\<lparr>current_task := None\<rparr>, phase := Idle\<rparr>)
       (st\<lparr>semaphore := semaphore st + 1\<rparr>)"

text \<open>The same when an exception that no handler of the loop catches passes through.\<close>

definition crash :: "nat \<Rightarrow> ParallelProcessor \<Rightarrow> ParallelProcessor" where
  "crash w st =
     upd_worker w (\<lambda>wk. wk\<lparr>stats := (stats wk)\<lparr>current_task := None\<rparr>, phase := Crashed\<rparr>)
       (st\<lparr>semaphore := semaphore st + 1\<rparr>)"

text \<open>The handler \<^verbatim>\<open>except Exception as e\<close> of \<^verbatim>\<open>_execute_task\<close>, up to its log
  call.\<close>

definition handle_exception ::
  "nat \<Rightarrow> uuid \<Rightarrow> task_ref \<Rightarrow> message \<Rightarrow> ParallelProcessor \<Rightarrow> ParallelProcessor" where
  "handle_exception w sid t m st =
     (let st1 = upd_task t
                  (\<lambda>tk. tk\<lparr>status := FAILED, error_message := Some m, end_time := Some (now st)\<rparr>) st;
          st2 = upd_worker w
                  (\<lambda>wk. wk\<lparr>stats := (stats wk)\<lparr>tasks_failed := tasks_failed (stats wk) + 1\<rparr>\<rparr>) st1
      in case active_sessions st2 sid of
           None \<Rightarrow> st2
         | Some c \<Rightarrow> upd_session c (\<lambda>sc. sc\<lparr>failed_tasks := failed_tasks sc @ [t]\<rparr>) st2)"

text \<open>
  The handler ends with \<^verbatim>\<open>logger.error\<close> with keyword arguments. When that raises, the
  exception leaves \<^verbatim>\<open>_execute_task\<close> and reaches the handler of the worker loop, whose
  own \<^verbatim>\<open>logger.error\<close> with a keyword argument raises in turn, so the loop is left.
\<close>

definition after_handler :: "environment \<Rightarrow> nat \<Rightarrow> ParallelProcessor \<Rightarrow> ParallelProcessor" where
  "after_handler env w st = (if enabled env ERROR then crash w st else finish_task w st)"

definition fail_task ::
  "environment \<Rightarrow> nat \<Rightarrow> uuid \<Rightarrow> task_ref \<Rightarrow> message \<Rightarrow> ParallelProcessor \<Rightarrow> ParallelProcessor"
  where
  "fail_task env w sid t m st = after_handler env w (handle_exception w sid t m st)"

text \<open>The body from the entry into the section up to the call of the agent; its first
  statement in the \<^verbatim>\<open>try\<close> block is \<^verbatim>\<open>logger.info\<close> with keyword arguments.\<close>

definition dispatch ::
  "environment \<Rightarrow> nat \<Rightarrow> uuid \<Rightarrow> task_ref \<Rightarrow> ParallelProcessor \<Rightarrow> ParallelProcessor"
  where
  "dispatch env w sid t st =
     (let name = agent_name (task_objs st t);
          st1 = upd_worker w (\<lambda>wk. wk\<lparr>stats := (stats wk)\<lparr>current_task := Some name\<rparr>\<rparr>) st
      in if enabled env INFO then fail_task env w sid t LoggerTypeError st1
         else case active_sessions st1 sid of
           None \<Rightarrow> fail_task env w sid t (SessionNotFound sid) st1
         | Some c \<Rightarrow>
             if is_cancelled (session_objs st1 c)
             then finish_task w (upd_task t (\<lambda>tk. tk\<lparr>status := CANCELLED\<rparr>) st1)
             else (case get_agent env name of
                     None \<Rightarrow> fail_task env w sid t (AgentNotFound name) st1
                   | Some a \<Rightarrow> upd_worker w (\<lambda>wk. wk\<lparr>phase := Executing sid t c\<rparr>) st1))"

text \<open>The body from the return of the agent up to the call of the progress callback.\<close>

definition record_result ::
  "nat \<Rightarrow> task_ref \<Rightarrow> ctx_ref \<Rightarrow> AgentResult \<Rightarrow> ParallelProcessor \<Rightarrow> ParallelProcessor" where
  "record_result w t c r st =
     (let st1 = upd_task t
                  (\<lambda>tk. tk\<lparr>status := StatusEnum_of (result_status r),
                           output_data := result_output_data r,
                           error_message := result_error_message r,
                           start_time := result_start_time r,
                           end_time := result_end_time r\<rparr>) st
      in if result_status r = AGENT_COMPLETED
         then upd_worker w
                (\<lambda>wk. wk\<lparr>stats := (stats wk)\<lparr>tasks_completed := tasks_completed (stats wk) + 1\<rparr>\<rparr>)
                (upd_session c (\<lambda>sc. sc\<lparr>completed_tasks := completed_tasks sc @ [t]\<rparr>) st1)
         else upd_worker w
                (\<lambda>wk. wk\<lparr>stats := (stats wk)\<lparr>tasks_failed := tasks_failed (stats wk) + 1\<rparr>\<rparr>)
                (upd_session c (\<lambda>sc. sc\<lparr>failed_tasks := failed_tasks sc @ [t]\<rparr>) st1))"

text \<open>The end of the \<^verbatim>\<open>try\<close> block after the callback: \<^verbatim>\<open>logger.info\<close> with keyword
  arguments, still inside the block.\<close>

definition complete ::
  "environment \<Rightarrow> nat \<Rightarrow> uuid \<Rightarrow> task_ref \<Rightarrow> ParallelProcessor \<Rightarrow> ParallelProcessor" where
  "complete env w sid t st =
     (if enabled env INFO then fail_task env w sid t LoggerTypeError st else finish_task w st)"

definition agent_done ::
  "environment \<Rightarrow> nat \<Rightarrow> uuid \<Rightarrow> task_ref \<Rightarrow> ctx_ref \<Rightarrow> agent_outcome \<Rightarrow> ParallelProcessor
     \<Rightarrow> ParallelProcessor"
  where
  "agent_done env w sid t c out st =
     (case out of
        Returned r \<Rightarrow>
          (let st1 = record_result w t c r st
           in if progress_callback (session_objs st1 c)
              then upd_worker w (\<lambda>wk. wk\<lparr>phase := InCallback sid t c\<rparr>) st1
              else complete env w sid t st1)
      | Raised m \<Rightarrow> fail_task env w sid t m st
      | RaisedBase \<Rightarrow> crash w st)"

text \<open>The rest of the body: the callback returned (\<open>None\<close>) or raised.\<close>

definition callback_done ::
  "environment \<Rightarrow> nat \<Rightarrow> uuid \<Rightarrow> task_ref \<Rightarrow> message option \<Rightarrow> ParallelProcessor
     \<Rightarrow> ParallelProcessor" where
  "callback_done env w sid t out st =
     (case out of
        None \<Rightarrow> complete env w sid t st
      | Some m \<Rightarrow> fail_task env w sid t m st)"

subsection \<open>The caller's side\<close>

definition cancel_session :: "uuid \<Rightarrow> ParallelProcessor \<Rightarrow> ParallelProcessor" where
  "cancel_session sid st =
     (case active_sessions st sid of
        None \<Rightarrow> st
      | Some c \<Rightarrow> upd_session c (\<lambda>sc. sc\<lparr>is_cancelled := True\<rparr>) st)"

text \<open>The session context created by \<^verbatim>\<open>execute_agents_parallel\<close> and stored under the
  session id, replacing whatever was there.\<close>

definition new_session :: "uuid \<Rightarrow> task_ref list \<Rightarrow> bool \<Rightarrow> ParallelProcessor \<Rightarrow> ParallelProcessor" where
  "new_session sid ts cb st =
     st\<lparr>session_objs := (session_objs st)(next_ctx st :=
           \<lparr>session_id = sid, tasks = ts, completed_tasks = [], failed_tasks = [],
            is_cancelled = False, progress_callback = cb\<rparr>),
        active_sessions := (active_sessions st)(sid \<mapsto> next_ctx st),
        next_ctx := next_ctx st + 1\<rparr>"

definition mark_pending :: "task_ref \<Rightarrow> ParallelProcessor \<Rightarrow> ParallelProcessor" where
  "mark_pending t st = upd_task t (\<lambda>tk. tk\<lparr>status := PENDING\<rparr>) st"

text \<open>An \<^verbatim>\<open>asyncio.Queue\<close> is full when its bound is positive and reached.\<close>

definition full :: "ParallelProcessor \<Rightarrow> bool" where
  "full st = (0 < queue_size st \<and> queue_size st \<le> length (task_queue st))"

definition enqueue :: "uuid \<Rightarrow> task_ref \<Rightarrow> ParallelProcessor \<Rightarrow> ParallelProcessor" where
  "enqueue sid t st = (if full st then st else st\<lparr>task_queue := task_queue st @ [Some (sid, t)]\<rparr>)"

subsection \<open>Events and runs\<close>

datatype event =
    Dequeue nat
  | Acquire nat
  | Dispatch nat
  | AgentDone nat agent_outcome
  | CallbackDone nat "message option"
  | Cancel uuid
  | Tick
  | NewSession uuid "task_ref list" bool
  | MarkPending task_ref
  | Enqueue uuid task_ref

text \<open>An event that names a worker that does not exist or is suspended elsewhere
  changes nothing.\<close>

definition worker_step ::
  "environment \<Rightarrow> event \<Rightarrow> nat \<Rightarrow> ParallelProcessor \<Rightarrow> ParallelProcessor" where
  "worker_step env e w st =
     (case (e, phase (workers st ! w)) of
        (Dequeue _, Idle) \<Rightarrow> worker_loop_get w st
      | (Acquire _, Waiting sid t) \<Rightarrow> acquire w sid t st
      | (Dispatch _, Entered sid t) \<Rightarrow> dispatch env w sid t st
      | (AgentDone _ out, Executing sid t c) \<Rightarrow> agent_done env w sid t c out st
      | (CallbackDone _ out, InCallback sid t c) \<Rightarrow> callback_done env w sid t out st
      | _ \<Rightarrow> st)"

fun step :: "environment \<Rightarrow> event \<Rightarrow> ParallelProcessor \<Rightarrow> ParallelProcessor" where
  "step env (Dequeue w) st = (if w < length (workers st) then worker_step env (Dequeue w) w st else st)"
| "step env (Acquire w) st = (if w < length (workers st) then worker_step env (Acquire w) w st else st)"
| "step env (Dispatch w) st = (if w < length (workers st) then worker_step env (Dispatch w) w st else st)"
| "step env (AgentDone w out) st =
     (if w < length (workers st) then worker_step env (AgentDone w out) w st else st)"
| "step env (CallbackDone w out) st =
     (if w < length (workers st) then worker_step env (CallbackDone w out) w st else st)"
| "step env (Cancel sid) st = cancel_session sid st"
| "step env Tick st = st\<lparr>now := now st + 1\<rparr>"
| "step env (NewSession sid ts cb) st = new_session sid ts cb st"
| "step env (MarkPending t) st = mark_pending t st"
| "step env (Enqueue sid t) st = enqueue sid t st"

fun run :: "environment \<Rightarrow> event list \<Rightarrow> ParallelProcessor \<Rightarrow> ParallelProcessor" where
  "run env [] st = st"
| "run env (e # es) st = run env es (step env e st)"

subsection \<open>Observations\<close>

text \<open>The tasks inside the section guarded by the semaphore.\<close>

fun in_section :: "worker_phase \<Rightarrow> bool" where
  "in_section (Entered sid t) = True"
| "in_section (Executing sid t c) = True"
| "in_section (InCallback sid t c) = True"
| "in_section p = False"

definition phases :: "ParallelProcessor \<Rightarrow> worker_phase list" where
  "phases st = map phase (workers st)"

definition inside :: "ParallelProcessor \<Rightarrow> nat" where
  "inside st = length (filter in_section (phases st))"

text \<open>The counting limiter: free slots plus tasks inside the section make up
  \<open>max_workers\<close>.\<close>

definition limiter_ok :: "ParallelProcessor \<Rightarrow> bool" where
  "limiter_ok st = (semaphore st + inside st = max_workers st)"






subsection \<open>\<^verbatim>\<open>execute_agents_parallel\<close>\<close>

text \<open>
  The caller's coroutine is suspended at \<^verbatim>\<open>await self.task_queue.put(...)\<close> while the
  queue is full and at every \<^verbatim>\<open>await asyncio.sleep(0.1)\<close> of the wait loop. The schedule
  gives, for each suspension in turn, the events that happen during it; a call whose
  schedule runs out while it is suspended has not returned (\<open>None\<close>).
\<close>

text \<open>\<^verbatim>\<open>sorted(tasks, key=lambda t: t.priority.value, reverse=True)\<close>: Python's sort is
  stable, also with \<^verbatim>\<open>reverse=True\<close>.\<close>

definition sorted_tasks :: "(task_ref \<Rightarrow> SubAgentTaskModel) \<Rightarrow> task_ref list \<Rightarrow> task_ref list" where
  "sorted_tasks objs ts = sort_key (\<lambda>t. - priority_value (priority (objs t))) ts"

fun put ::
  "environment \<Rightarrow> uuid \<Rightarrow> task_ref \<Rightarrow> event list list \<Rightarrow> ParallelProcessor
     \<Rightarrow> (ParallelProcessor \<times> event list list) option" where
  "put env sid t [] st = (if full st then None else Some (enqueue sid t st, []))"
| "put env sid t (evs # rest) st =
     (if full st then put env sid t rest (run env evs st) else Some (enqueue sid t st, evs # rest))"

fun put_all ::
  "environment \<Rightarrow> uuid \<Rightarrow> task_ref list \<Rightarrow> event list list \<Rightarrow> ParallelProcessor
     \<Rightarrow> (ParallelProcessor \<times> event list list) option" where
  "put_all env sid [] sched st = Some (st, sched)"
| "put_all env sid (t # ts) sched st =
     (case put env sid t sched (mark_pending t st) of
        None \<Rightarrow> None
      | Some (st1, sched1) \<Rightarrow> put_all env sid ts sched1 st1)"

datatype exit_reason = AllDone | TimedOut | SessionCancelled

definition finished_count :: "ParallelProcessor \<Rightarrow> ctx_ref \<Rightarrow> nat" where
  "finished_count st c =
     length (completed_tasks (session_objs st c)) + length (failed_tasks (session_objs st c))"

text \<open>The three checks of one turn of the wait loop, in the order of the source.\<close>

definition wait_check :: "ctx_ref \<Rightarrow> nat \<Rightarrow> nat \<Rightarrow> nat \<Rightarrow> ParallelProcessor \<Rightarrow> exit_reason option" where
  "wait_check c total_tasks start_wait timeout st =
     (if total_tasks \<le> finished_count st c then Some AllDone
      else if start_wait + timeout < now st then Some TimedOut
      else if is_cancelled (session_objs st c) then Some SessionCancelled
      else None)"

fun wait_loop ::
  "environment \<Rightarrow> ctx_ref \<Rightarrow> nat \<Rightarrow> nat \<Rightarrow> nat \<Rightarrow> event list list
     \<Rightarrow> ParallelProcessor \<Rightarrow> (exit_reason \<times> ParallelProcessor) option" where
  "wait_loop env c total_tasks start_wait timeout [] st =
     (case wait_check c total_tasks start_wait timeout st of
        Some why \<Rightarrow> Some (why, st)
      | None \<Rightarrow> None)"
| "wait_loop env c total_tasks start_wait timeout (evs # rest) st =
     (case wait_check c total_tasks start_wait timeout st of
        Some why \<Rightarrow> Some (why, st)
      | None \<Rightarrow> wait_loop env c total_tasks start_wait timeout rest (run env evs st))"

text \<open>How a call ends: with a list, or with an exception, together with the exception
  that was being handled when it was raised, if any (its \<^verbatim>\<open>__context__\<close>).\<close>

datatype py_exception = RuntimeError | ZeroDivisionError | TypeError

datatype call_outcome =
    Returns exit_reason "task_ref list"
  | Raises py_exception "py_exception option"

text \<open>The handler \<^verbatim>\<open>except Exception as e\<close> of the function: \<^verbatim>\<open>logger.error\<close> with
  keyword arguments, then \<^verbatim>\<open>raise\<close>.\<close>

definition reraise :: "environment \<Rightarrow> py_exception \<Rightarrow> call_outcome" where
  "reraise env e = (if enabled env ERROR then Raises TypeError (Some e) else Raises e None)"

text \<open>
  The \<^verbatim>\<open>try\<close> block opens with \<^verbatim>\<open>logger.info\<close> with keyword arguments; the timeout
  branch of the loop calls \<^verbatim>\<open>logger.warn\<close> and the cancellation branch
  \<^verbatim>\<open>logger.info\<close>, both with keyword arguments, before \<^verbatim>\<open>break\<close>; after the loop the
  success rate \<^verbatim>\<open>completed_tasks/total_tasks\<close> is computed as an argument of a last
  \<^verbatim>\<open>logger.info\<close> with keyword arguments.
\<close>

definition exit_log_level :: "exit_reason \<Rightarrow> log_level option" where
  "exit_log_level why =
     (case why of AllDone \<Rightarrow> None | TimedOut \<Rightarrow> Some WARNING | SessionCancelled \<Rightarrow> Some INFO)"

definition execute_agents_parallel ::
  "environment \<Rightarrow> task_ref list \<Rightarrow> uuid \<Rightarrow> bool \<Rightarrow> event list list
     \<Rightarrow> ParallelProcessor \<Rightarrow> (call_outcome \<times> ParallelProcessor) option" where
  "execute_agents_parallel env ts sid cb sched st =
     (if is_initialized st
      then (let c = next_ctx st;
                st0 = new_session sid ts cb st
            in if enabled env INFO then Some (reraise env TypeError, st0)
               else case put_all env sid (sorted_tasks (task_objs st0) ts) sched st0 of
                 None \<Rightarrow> None
               | Some (st1, sched1) \<Rightarrow>
                   (case wait_loop env c (length ts) (now st1) (task_timeout st1) sched1 st1 of
                      None \<Rightarrow> None
                    | Some (why, st2) \<Rightarrow>
                        if (case exit_log_level why of None \<Rightarrow> False | Some l \<Rightarrow> enabled env l)
                        then Some (reraise env TypeError, st2)
                        else if length ts = 0 then Some (reraise env ZeroDivisionError, st2)
                        else Some (Returns why
                                     (completed_tasks (session_objs st2 c) @
                                      failed_tasks (session_objs st2 c)), st2)))
      else Some (Raises RuntimeError None, st))"

subsection \<open>Concrete scenarios\<close>

text \<open>A freshly created task as the caller passes it in.\<close>

definition a_task :: "string \<Rightarrow> PriorityEnum \<Rightarrow> SubAgentTaskModel" where
  "a_task name p = \<lparr>task_id = 0, agent_name = name, priority = p, status = PENDING,
     input_data = [], output_data = None, error_message = None, start_time = None,
     end_time = None\<rparr>"

text \<open>A registry that knows the agent \<open>A\<close>.\<close>

definition registry1 :: "string \<Rightarrow> agent_class option" where
  "registry1 name = (if name = ''A'' then Some (AgentClass ''A'') else None)"

text \<open>The environments of the scenarios: the placeholder registry or \<open>registry1\<close>, with
  logging as the standard library sets it up (effective level \<open>30\<close>), and \<open>registry1\<close> or
  the placeholder with logging switched off.\<close>

definition stub_env :: environment where
  "stub_env = \<lparr>get_agent = get_agent_stub, effective_level = 30\<rparr>"

definition env1 :: environment where
  "env1 = \<lparr>get_agent = registry1, effective_level = 30\<rparr>"

definition quiet_env :: environment where
  "quiet_env = \<lparr>get_agent = registry1, effective_level = 100\<rparr>"

definition quiet_stub_env :: environment where
  "quiet_stub_env = \<lparr>get_agent = get_agent_stub, effective_level = 100\<rparr>"

text \<open>An engine with one worker that has just entered the guarded section with task
  \<open>0\<close> of session \<open>7\<close>, whose agent name the placeholder registry does not know.\<close>

definition engine1 :: "string \<Rightarrow> ParallelProcessor" where
  "engine1 name = initialize (ParallelProcessor_init 1 1000 600 (\<lambda>t. a_task name NORMAL))"

definition entered_state :: ParallelProcessor where
  "entered_state =
     run stub_env
       [NewSession 7 [0] False, MarkPending 0, Enqueue 7 0, Dequeue 0, Acquire 0]
       (engine1 ''NoSuchAgent'')"

text \<open>An engine with one worker and a batch timeout of one tick, before and after a
  batch \<open>[0]\<close> of session \<open>7\<close> is enqueued, and after the worker has called the agent
  and two ticks have passed without its return.\<close>

definition timeout_engine :: ParallelProcessor where
  "timeout_engine = initialize (ParallelProcessor_init 1 1000 1 (\<lambda>t. a_task ''A'' NORMAL))"

definition timeout_enqueued :: ParallelProcessor where
  "timeout_enqueued = enqueue 7 0 (mark_pending 0 (new_session 7 [0] False timeout_engine))"

definition timeout_late :: ParallelProcessor where
  "timeout_late =
     run env1 [Dequeue 0, Acquire 0, Dispatch 0, Tick, Tick] timeout_enqueued"

text \<open>A session with a progress callback: one worker, the batch \<open>[0]\<close> of session
  \<open>7\<close>, the agent has returned successfully and the worker is awaiting the callback.\<close>

definition ok_result :: AgentResult where
  "ok_result = \<lparr>result_status = AGENT_COMPLETED, result_output_data = Some ''out'',
     result_error_message = None, result_start_time = Some 0, result_end_time = Some 0\<rparr>"








text \<open>Ten tasks of session \<open>7\<close> on an engine with one worker. While the caller sleeps for
  the first time the worker takes task \<open>0\<close> and calls its agent, the session is cancelled,
  the agent returns, and the worker goes through the nine remaining tasks.\<close>

definition ten_tasks :: "task_ref list" where
  "ten_tasks = [0, 1, 2, 3, 4, 5, 6, 7, 8, 9]"

definition cancel_events :: "event list" where
  "cancel_events =
     [Dequeue 0, Acquire 0, Dispatch 0, Cancel 7, AgentDone 0 (Returned ok_result)] @
     concat (replicate 9 [Dequeue 0, Acquire 0, Dispatch 0])"

definition cancel_call :: "(call_outcome \<times> ParallelProcessor) option" where
  "cancel_call = execute_agents_parallel env1 ten_tasks 7 False [cancel_events] (engine1 ''A'')"

text \<open>What a step may do to the status of a task: leave it, or set a terminal one.\<close>

definition status_move_ok :: "StatusEnum \<Rightarrow> StatusEnum \<Rightarrow> bool" where
  "status_move_ok s s' = (s' = s \<or> s' = COMPLETED \<or> s' = FAILED \<or> s' = CANCELLED)"




section \<open>Properties\<close>

subsection \<open>The counting limiter\<close>

lemma filter_update_count:
  "i < length xs \<Longrightarrow>
   length (filter P (xs[i := y])) + (if P (xs ! i) then 1 else 0)
     = length (filter P xs) + (if P y then 1 else 0)"
proof (induction xs arbitrary: i)
  case Nil
  then show ?case by simp
next
  case (Cons x xs)
  show ?case
  proof (cases i)
    case 0
    then show ?thesis by simp
  next
    case (Suc j)
    with Cons.prems have "j < length xs" by simp
    from Cons.IH [OF this] Suc show ?thesis by simp
  qed
qed

lemma phases_upd_worker: "phases (upd_worker w f st) = (phases st)[w := phase (f (workers st ! w))]"
  by (simp add: phases_def upd_worker_def map_update)

lemma phases_upd_task [simp]: "phases (upd_task t f st) = phases st"
  by (simp add: phases_def upd_task_def)

lemma phases_upd_session [simp]: "phases (upd_session c f st) = phases st"
  by (simp add: phases_def upd_session_def)

lemma semaphore_upd [simp]:
  "semaphore (upd_task t f st) = semaphore st"
  "semaphore (upd_session c g st) = semaphore st"
  "semaphore (upd_worker w h st) = semaphore st"
  "max_workers (upd_task t f st) = max_workers st"
  "max_workers (upd_session c g st) = max_workers st"
  "max_workers (upd_worker w h st) = max_workers st"
  by (simp_all add: upd_task_def upd_session_def upd_worker_def)

lemma inside_set_phase:
  assumes "w < length (workers st)"
  shows "inside (upd_worker w f st) + (if in_section (phase (workers st ! w)) then 1 else 0)
         = inside st + (if in_section (phase (f (workers st ! w))) then 1 else 0)"
proof -
  have len: "w < length (phases st)" using assms by (simp add: phases_def)
  have nth: "phases st ! w = phase (workers st ! w)" using assms by (simp add: phases_def)
  show ?thesis
    unfolding inside_def phases_upd_worker
    using filter_update_count [OF len, of in_section "phase (f (workers st ! w))"] nth
    by simp
qed

lemma limiter_change:
  assumes ok: "limiter_ok st" and w: "w < length (workers st)"
    and mw: "max_workers st' = max_workers st"
    and ph: "phases st' = (phases st)[w := p]"
    and sem: "semaphore st' + (if in_section p then 1 else 0)
              = semaphore st + (if in_section (phase (workers st ! w)) then 1 else 0)"
  shows "limiter_ok st'"
proof -
  have len: "w < length (phases st)" using w by (simp add: phases_def)
  have nth: "phases st ! w = phase (workers st ! w)" using w by (simp add: phases_def)
  have "inside st' + (if in_section (phase (workers st ! w)) then 1 else 0)
        = inside st + (if in_section p then 1 else 0)"
    unfolding inside_def ph using filter_update_count [OF len, of in_section p] nth by simp
  with ok mw sem show ?thesis unfolding limiter_ok_def by (auto split: if_splits)
qed

lemma limiter_same:
  assumes "limiter_ok st" "max_workers st' = max_workers st" "phases st' = phases st"
    "semaphore st' = semaphore st"
  shows "limiter_ok st'"
  using assms by (simp add: limiter_ok_def inside_def)

lemma phases_keep:
  assumes "\<And>wk. phase (f wk) = phase wk"
  shows "phases (upd_worker w f st) = phases st"
proof (cases "w < length (workers st)")
  case True
  then show ?thesis by (simp add: phases_def upd_worker_def map_update assms list_update_same_conv)
next
  case False
  then have "length (workers st) \<le> w" by simp
  then show ?thesis by (simp add: phases_def upd_worker_def list_update_beyond)
qed

lemma handle_exception_limiter [simp]:
  "phases (handle_exception w sid t m st) = phases st"
  "semaphore (handle_exception w sid t m st) = semaphore st"
  "max_workers (handle_exception w sid t m st) = max_workers st"
  by (simp_all add: handle_exception_def Let_def phases_keep split: option.splits)

lemma record_result_limiter [simp]:
  "phases (record_result w t c r st) = phases st"
  "semaphore (record_result w t c r st) = semaphore st"
  "max_workers (record_result w t c r st) = max_workers st"
  by (simp_all add: record_result_def Let_def phases_keep)

lemma phases_sem_upd [simp]: "phases (st\<lparr>semaphore := x\<rparr>) = phases st"
  "phases (st\<lparr>task_queue := q\<rparr>) = phases st"
  by (simp_all add: phases_def)

lemma finish_task_limiter [simp]:
  "phases (finish_task w st) = (phases st)[w := Idle]"
  "semaphore (finish_task w st) = semaphore st + 1"
  "max_workers (finish_task w st) = max_workers st"
  by (simp_all add: finish_task_def phases_upd_worker)

lemma crash_limiter [simp]:
  "phases (crash w st) = (phases st)[w := Crashed]"
  "semaphore (crash w st) = semaphore st + 1"
  "max_workers (crash w st) = max_workers st"
  by (simp_all add: crash_def phases_upd_worker)

lemma limiter_worker_loop_get:
  assumes "limiter_ok st" "w < length (workers st)" "phase (workers st ! w) = Idle"
  shows "limiter_ok (worker_loop_get w st)"
proof -
  have stop: "limiter_ok (upd_worker w (\<lambda>wk. wk\<lparr>phase := Stopped\<rparr>) st)"
    by (rule limiter_change [where p = Stopped and w = w and st = st]) (use assms in \<open>simp_all add: phases_upd_worker\<close>)
  have stopq: "limiter_ok (upd_worker w (\<lambda>wk. wk\<lparr>phase := Stopped\<rparr>) (st\<lparr>task_queue := q\<rparr>))" for q
    by (rule limiter_change [where p = Stopped and w = w and st = st]) (use assms in \<open>simp_all add: phases_upd_worker\<close>)
  have waitq: "limiter_ok (upd_worker w (\<lambda>wk. wk\<lparr>phase := Waiting sid t\<rparr>) (st\<lparr>task_queue := q\<rparr>))"
    for q sid t
    by (rule limiter_change [where p = "Waiting sid t" and w = w and st = st]) (use assms in \<open>simp_all add: phases_upd_worker\<close>)
  show ?thesis
    unfolding worker_loop_get_def
    using assms(1) stop stopq waitq
    by (simp split: list.splits option.splits prod.splits)
qed

lemma limiter_acquire:
  assumes "limiter_ok st" "w < length (workers st)" "phase (workers st ! w) = Waiting sid t"
  shows "limiter_ok (acquire w sid t st)"
proof (cases "0 < semaphore st")
  case True
  show ?thesis
    by (rule limiter_change [where p = "Entered sid t" and w = w and st = st])
       (use True assms in \<open>simp_all add: acquire_def phases_upd_worker\<close>)
next
  case False
  then show ?thesis using assms by (simp add: acquire_def)
qed

lemma limiter_finish:
  assumes "limiter_ok st" "w < length (workers st)" "in_section (phase (workers st ! w))"
    "phases st1 = phases st" "semaphore st1 = semaphore st" "max_workers st1 = max_workers st"
  shows "limiter_ok (finish_task w st1)"
  by (rule limiter_change [where p = Idle and w = w and st = st]) (use assms in \<open>simp_all\<close>)

lemma limiter_crash:
  assumes "limiter_ok st" "w < length (workers st)" "in_section (phase (workers st ! w))"
    "phases st1 = phases st" "semaphore st1 = semaphore st" "max_workers st1 = max_workers st"
  shows "limiter_ok (crash w st1)"
  by (rule limiter_change [where p = Crashed and w = w and st = st]) (use assms in \<open>simp_all\<close>)

lemma limiter_fail_task:
  assumes "limiter_ok st" "w < length (workers st)" "in_section (phase (workers st ! w))"
    "phases st1 = phases st" "semaphore st1 = semaphore st" "max_workers st1 = max_workers st"
  shows "limiter_ok (fail_task env w sid t m st1)"
proof -
  let ?st2 = "handle_exception w sid t m st1"
  have h: "phases ?st2 = phases st" "semaphore ?st2 = semaphore st"
    "max_workers ?st2 = max_workers st" using assms(4,5,6) by simp_all
  show ?thesis
    unfolding fail_task_def after_handler_def
    using limiter_finish [OF assms(1,2,3) h] limiter_crash [OF assms(1,2,3) h] by simp
qed

lemma limiter_complete:
  assumes "limiter_ok st" "w < length (workers st)" "in_section (phase (workers st ! w))"
    "phases st1 = phases st" "semaphore st1 = semaphore st" "max_workers st1 = max_workers st"
  shows "limiter_ok (complete env w sid t st1)"
  unfolding complete_def
  using limiter_finish [OF assms] limiter_fail_task [OF assms] by simp

lemma limiter_dispatch:
  assumes "limiter_ok st" "w < length (workers st)" "phase (workers st ! w) = Entered sid t"
  shows "limiter_ok (dispatch env w sid t st)"
proof -
  let ?st1 = "upd_worker w (\<lambda>wk. wk\<lparr>stats := (stats wk)\<lparr>current_task :=
                 Some (agent_name (task_objs st t))\<rparr>\<rparr>) st"
  have p1: "phases ?st1 = phases st" by (simp add: phases_keep)
  have ins: "in_section (phase (workers st ! w))" using assms(3) by simp
  have w1: "workers ?st1 ! w = (workers st ! w)\<lparr>stats := (stats (workers st ! w))\<lparr>current_task :=
                 Some (agent_name (task_objs st t))\<rparr>\<rparr>"
    using assms(2) by (simp add: upd_worker_def)
  have ex: "limiter_ok (upd_worker w (\<lambda>wk. wk\<lparr>phase := Executing sid t c\<rparr>) ?st1)" for c
    by (rule limiter_change [where p = "Executing sid t c" and w = w and st = st]) (use assms p1 in \<open>simp_all add: phases_upd_worker\<close>)
  show ?thesis
    unfolding dispatch_def Let_def
    using ex limiter_finish [OF assms(1,2) ins] limiter_fail_task [OF assms(1,2) ins] p1
    by (simp split: option.splits)
qed

lemma limiter_agent_done:
  assumes "limiter_ok st" "w < length (workers st)" "phase (workers st ! w) = Executing sid t c"
  shows "limiter_ok (agent_done env w sid t c out st)"
proof -
  have ins: "in_section (phase (workers st ! w))" using assms(3) by simp
  show ?thesis
  proof (cases out)
    case (Returned r)
    have cb: "limiter_ok (upd_worker w (\<lambda>wk. wk\<lparr>phase := InCallback sid t c\<rparr>) (record_result w t c r st))"
      by (rule limiter_change [where p = "InCallback sid t c" and w = w and st = st]) (use assms in \<open>simp_all add: phases_upd_worker\<close>)
    show ?thesis unfolding agent_done_def Let_def
      using Returned cb limiter_complete [OF assms(1,2) ins] by simp
  next
    case (Raised m)
    then show ?thesis unfolding agent_done_def using limiter_fail_task [OF assms(1,2) ins] by simp
  next
    case RaisedBase
    have "limiter_ok (crash w st)"
      by (rule limiter_change [where p = Crashed and w = w and st = st])
         (use assms in \<open>simp_all\<close>)
    then show ?thesis using RaisedBase by (simp add: agent_done_def)
  qed
qed

lemma limiter_callback_done:
  assumes "limiter_ok st" "w < length (workers st)" "phase (workers st ! w) = InCallback sid t c"
  shows "limiter_ok (callback_done env w sid t out st)"
proof -
  have ins: "in_section (phase (workers st ! w))" using assms(3) by simp
  show ?thesis unfolding callback_done_def
    using limiter_complete [OF assms(1,2) ins] limiter_fail_task [OF assms(1,2) ins]
    by (simp split: option.splits)
qed

lemma limiter_worker_step:
  assumes "limiter_ok st" "w < length (workers st)"
  shows "limiter_ok (worker_step env e w st)"
proof (cases "phase (workers st ! w)")
  case Idle
  then show ?thesis using assms limiter_worker_loop_get [of st w]
    by (cases e) (simp_all add: worker_step_def)
next
  case (Waiting sid t)
  then show ?thesis using assms limiter_acquire [of st w sid t]
    by (cases e) (simp_all add: worker_step_def)
next
  case (Entered sid t)
  then show ?thesis using assms limiter_dispatch [of st w sid t env]
    by (cases e) (simp_all add: worker_step_def)
next
  case (Executing sid t c)
  then show ?thesis using assms limiter_agent_done [of st w sid t c env]
    by (cases e) (simp_all add: worker_step_def)
next
  case (InCallback sid t c)
  then show ?thesis using assms limiter_callback_done [of st w sid t c env]
    by (cases e) (simp_all add: worker_step_def)
next
  case Stopped
  then show ?thesis using assms by (cases e) (simp_all add: worker_step_def)
next
  case Crashed
  then show ?thesis using assms by (cases e) (simp_all add: worker_step_def)
qed

lemma limiter_step:
  assumes "limiter_ok st"
  shows "limiter_ok (step env e st)"
proof (cases e)
  case (Cancel sid)
  show ?thesis
  proof (cases "active_sessions st sid")
    case None
    then show ?thesis using assms Cancel by (simp add: cancel_session_def)
  next
    case (Some c)
    have "limiter_ok (upd_session c f st)" for f
      by (rule limiter_same [of st]) (use assms in \<open>simp_all\<close>)
    then show ?thesis using Some Cancel by (simp add: cancel_session_def)
  qed
next
  case Tick
  then show ?thesis using assms by (simp add: limiter_ok_def inside_def phases_def)
next
  case (NewSession sid ts cb)
  then show ?thesis using assms by (simp add: limiter_ok_def inside_def phases_def new_session_def)
next
  case (MarkPending t)
  have "limiter_ok (upd_task t f st)" for f
    by (rule limiter_same [of st]) (use assms in \<open>simp_all\<close>)
  then show ?thesis using MarkPending by (simp add: mark_pending_def)
next
  case (Enqueue sid t)
  then show ?thesis using assms by (simp add: limiter_ok_def inside_def phases_def enqueue_def)
qed (simp_all add: assms limiter_worker_step)

lemma limiter_run: "limiter_ok st \<Longrightarrow> limiter_ok (run env evs st)"
  by (induction evs arbitrary: st) (simp_all add: limiter_step)

lemma limiter_initial: "limiter_ok (initialize (ParallelProcessor_init n qs tt objs))"
proof -
  have "filter in_section (map phase (map new_worker xs)) = []" for xs
    by (induction xs) (simp_all add: new_worker_def)
  then show ?thesis
    by (simp add: limiter_ok_def inside_def phases_def initialize_def ParallelProcessor_init_def)
qed

lemma max_workers_fail_task [simp]:
  "max_workers (fail_task env w sid t m st) = max_workers st"
  "max_workers (complete env w sid t st) = max_workers st"
  by (simp_all add: fail_task_def complete_def after_handler_def)

lemma max_workers_worker_step: "max_workers (worker_step env e w st) = max_workers st"
proof (cases "phase (workers st ! w)")
  case Idle
  then show ?thesis
    by (cases e) (simp_all add: worker_step_def worker_loop_get_def split: list.splits option.splits)
next
  case (Waiting sid t)
  then show ?thesis by (cases e) (simp_all add: worker_step_def acquire_def)
next
  case (Entered sid t)
  then show ?thesis
    by (cases e) (simp_all add: worker_step_def dispatch_def Let_def split: option.splits)
next
  case (Executing sid t c)
  then show ?thesis
    by (cases e) (simp_all add: worker_step_def agent_done_def Let_def split: agent_outcome.splits)
next
  case (InCallback sid t c)
  then show ?thesis
    by (cases e) (simp_all add: worker_step_def callback_done_def split: option.splits)
next
  case Stopped
  then show ?thesis by (cases e) (simp_all add: worker_step_def)
next
  case Crashed
  then show ?thesis by (cases e) (simp_all add: worker_step_def)
qed

lemma max_workers_step: "max_workers (step env e st) = max_workers st"
  by (cases e)
     (simp_all add: max_workers_worker_step cancel_session_def new_session_def mark_pending_def
        enqueue_def split: option.splits)

lemma max_workers_run: "max_workers (run env evs st) = max_workers st"
  by (induction evs arbitrary: st) (simp_all add: max_workers_step)

text \<open>
  Claim C1. For every worker count \<open>n\<close> and every state the engine reaches from its
  start-up by any sequence of events, the number of tasks inside the section of
  \<^verbatim>\<open>_execute_task\<close> guarded by the semaphore is at most \<open>n\<close>.
\<close>

theorem concurrency_bound:
  "inside (run env evs (initialize (ParallelProcessor_init n qs tt objs))) \<le> n"
proof -
  let ?st = "run env evs (initialize (ParallelProcessor_init n qs tt objs))"
  have "limiter_ok ?st" by (rule limiter_run [OF limiter_initial])
  moreover have "max_workers ?st = n"
    by (simp add: max_workers_run initialize_def ParallelProcessor_init_def)
  ultimately show ?thesis by (simp add: limiter_ok_def)
qed

subsection \<open>The empty batch\<close>



lemma stub_env_levels:
  "\<not> enabled stub_env INFO" "enabled stub_env WARNING" "enabled stub_env ERROR"
  "\<not> enabled env1 INFO" "enabled env1 WARNING" "enabled env1 ERROR"
  "\<not> enabled quiet_env l" "\<not> enabled quiet_stub_env l"
  by (cases l; simp add: enabled_def stub_env_def env1_def quiet_env_def quiet_stub_env_def)+

subsection \<open>A task whose agent is not registered\<close>

lemma dispatch_unknown_agent:
  assumes "w < length (workers st)" "active_sessions st sid = Some c"
    "\<not> is_cancelled (session_objs st c)" "get_agent env (agent_name (task_objs st t)) = None"
    "\<not> enabled env INFO"
  shows "status (task_objs (dispatch env w sid t st) t) = FAILED"
    and "error_message (task_objs (dispatch env w sid t st) t)
         = Some (AgentNotFound (agent_name (task_objs st t)))"
    and "failed_tasks (session_objs (dispatch env w sid t st) c) = failed_tasks (session_objs st c) @ [t]"
    and "completed_tasks (session_objs (dispatch env w sid t st) c) = completed_tasks (session_objs st c)"
    and "phase (workers (dispatch env w sid t st) ! w) = (if enabled env ERROR then Crashed else Idle)"
    and "semaphore (dispatch env w sid t st) = semaphore st + 1"
  using assms
  by (simp_all add: dispatch_def fail_task_def after_handler_def handle_exception_def
        finish_task_def crash_def upd_task_def upd_session_def upd_worker_def Let_def)

lemma entered_state_facts:
  "length (workers entered_state) = 1"
  "phase (workers entered_state ! 0) = Entered 7 0"
  "active_sessions entered_state 7 = Some 0"
  "\<not> is_cancelled (session_objs entered_state 0)"
  "agent_name (task_objs entered_state 0) = ''NoSuchAgent''"
  "failed_tasks (session_objs entered_state 0) = []"
  by (simp_all add: entered_state_def engine1_def initialize_def ParallelProcessor_init_def
        new_worker_def new_session_def mark_pending_def enqueue_def full_def worker_step_def
        worker_loop_get_def acquire_def upd_task_def upd_worker_def a_task_def)

lemma entered_state_step: "step env (Dispatch 0) entered_state = dispatch env 0 7 0 entered_state"
  by (simp add: worker_step_def entered_state_facts)

text \<open>
  Claim C7, at a failing input: logging as the standard library sets it up, one worker,
  a registered session, a task whose agent name the registry (here the placeholder of the
  file) does not know. The task gets status \<open>FAILED\<close> with the engine's message and is
  appended to the failed list, as the claim says, but the handler's
  \<^verbatim>\<open>logger.error\<close> with keyword arguments then raises \<^verbatim>\<open>TypeError\<close>, and so does the one
  of the worker loop: the exception leaves the loop and the worker is gone. With error
  logging disabled the worker is back at the head of its loop.
\<close>

theorem unknown_agent_stops_worker:
  "status (task_objs (step stub_env (Dispatch 0) entered_state) 0) = FAILED \<and>
   error_message (task_objs (step stub_env (Dispatch 0) entered_state) 0)
     = Some (AgentNotFound ''NoSuchAgent'') \<and>
   failed_tasks (session_objs (step stub_env (Dispatch 0) entered_state) 0) = [0] \<and>
   phase (workers (step stub_env (Dispatch 0) entered_state) ! 0) = Crashed \<and>
   phase (workers (step quiet_stub_env (Dispatch 0) entered_state) ! 0) = Idle"
proof -
  have w: "0 < length (workers entered_state)" by (simp add: entered_state_facts)
  have a: "get_agent stub_env (agent_name (task_objs entered_state 0)) = None"
    "get_agent quiet_stub_env (agent_name (task_objs entered_state 0)) = None"
    by (simp_all add: stub_env_def quiet_stub_env_def get_agent_stub_def)
  note d = dispatch_unknown_agent
    [where st = entered_state and w = 0 and sid = 7 and c = 0 and t = 0,
     OF w entered_state_facts(3) entered_state_facts(4)]
  show ?thesis
    unfolding entered_state_step
    using d [where env = stub_env, OF a(1) stub_env_levels(1)]
      d [where env = quiet_stub_env, OF a(2) stub_env_levels(8)]
    by (simp add: entered_state_facts stub_env_levels)
qed

subsection \<open>The batch timeout\<close>

lemma wait_loop_timed_out:
  "wait_loop env c total_tasks start_wait timeout sched st = Some (TimedOut, st2) \<Longrightarrow>
   finished_count st2 c < total_tasks \<and> start_wait + timeout < now st2"
proof (induction sched arbitrary: st)
  case Nil
  then show ?case by (auto simp: wait_check_def split: if_splits option.splits)
next
  case (Cons evs rest)
  show ?case
  proof (cases "wait_check c total_tasks start_wait timeout st")
    case None
    with Cons.prems have "wait_loop env c total_tasks start_wait timeout rest (run env evs st)
                          = Some (TimedOut, st2)" by simp
    then show ?thesis by (rule Cons.IH)
  next
    case (Some why)
    with Cons.prems have "why = TimedOut" "st2 = st" by simp_all
    with Some show ?thesis by (auto simp: wait_check_def split: if_splits)
  qed
qed



lemma timeout_returns_partial_when_quiet:
  assumes "is_initialized st" and "\<not> enabled env INFO" and "\<not> enabled env WARNING"
    and "put_all env sid (sorted_tasks (task_objs (new_session sid ts cb st)) ts) sched
           (new_session sid ts cb st) = Some (st1, sched1)"
    and "wait_loop env (next_ctx st) (length ts) (now st1) (task_timeout st1) sched1 st1
           = Some (TimedOut, st2)"
  shows "execute_agents_parallel env ts sid cb sched st
           = Some (Returns TimedOut
                     (completed_tasks (session_objs st2 (next_ctx st)) @
                      failed_tasks (session_objs st2 (next_ctx st))), st2) \<and>
         length (completed_tasks (session_objs st2 (next_ctx st)) @
                 failed_tasks (session_objs st2 (next_ctx st))) < length ts"
proof -
  from wait_loop_timed_out [OF assms(5)]
  have less: "finished_count st2 (next_ctx st) < length ts" by simp
  then have "length ts \<noteq> 0" by (cases ts) simp_all
  with assms less show ?thesis
    by (simp add: execute_agents_parallel_def Let_def finished_count_def exit_log_level_def)
qed

lemma timeout_raises_when_logged:
  assumes "is_initialized st" and "\<not> enabled env INFO" and "enabled env WARNING"
    and "put_all env sid (sorted_tasks (task_objs (new_session sid ts cb st)) ts) sched
           (new_session sid ts cb st) = Some (st1, sched1)"
    and "wait_loop env (next_ctx st) (length ts) (now st1) (task_timeout st1) sched1 st1
           = Some (TimedOut, st2)"
  shows "execute_agents_parallel env ts sid cb sched st = Some (reraise env TypeError, st2)"
  using assms
  by (simp add: execute_agents_parallel_def Let_def exit_log_level_def)

lemma timeout_scenario:
  "is_initialized timeout_engine"
  "next_ctx timeout_engine = 0"
  "now timeout_enqueued = 0"
  "task_timeout timeout_enqueued = 1"
  "put_all env 7 (sorted_tasks (task_objs (new_session 7 [0] False timeout_engine)) [0])
     [[Dequeue 0, Acquire 0, Dispatch 0, Tick, Tick]]
     (new_session 7 [0] False timeout_engine)
   = Some (timeout_enqueued, [[Dequeue 0, Acquire 0, Dispatch 0, Tick, Tick]])"
  by (simp_all add: timeout_engine_def timeout_enqueued_def initialize_def
        ParallelProcessor_init_def new_session_def mark_pending_def enqueue_def full_def
        upd_task_def sorted_tasks_def)

lemma timeout_late_facts:
  "now timeout_late = 2"
  "completed_tasks (session_objs timeout_late 0) = []"
  "failed_tasks (session_objs timeout_late 0) = []"
  "phase (workers timeout_late ! 0) = Executing 7 0 0"
  by (simp_all add: timeout_late_def timeout_enqueued_def timeout_engine_def initialize_def
        ParallelProcessor_init_def new_worker_def new_session_def mark_pending_def enqueue_def
        full_def worker_step_def worker_loop_get_def acquire_def dispatch_def Let_def
        upd_task_def upd_worker_def a_task_def registry1_def env1_def enabled_def)

lemma timeout_late_quiet:
  "run quiet_env [Dequeue 0, Acquire 0, Dispatch 0, Tick, Tick] timeout_enqueued = timeout_late"
  by (simp add: timeout_late_def timeout_enqueued_def timeout_engine_def initialize_def
        ParallelProcessor_init_def new_worker_def new_session_def mark_pending_def enqueue_def
        full_def worker_step_def worker_loop_get_def acquire_def dispatch_def Let_def
        upd_task_def upd_worker_def a_task_def registry1_def env1_def quiet_env_def enabled_def)

lemma timeout_wait:
  assumes "run env [Dequeue 0, Acquire 0, Dispatch 0, Tick, Tick] timeout_enqueued = timeout_late"
  shows "wait_loop env 0 (length [0::nat]) 0 1 [[Dequeue 0, Acquire 0, Dispatch 0, Tick, Tick]]
     timeout_enqueued = Some (TimedOut, timeout_late)"
proof -
  have "wait_check 0 (Suc 0) 0 1 timeout_enqueued = None"
    by (simp add: wait_check_def finished_count_def timeout_enqueued_def timeout_engine_def
          initialize_def ParallelProcessor_init_def new_session_def mark_pending_def enqueue_def
          full_def upd_task_def)
  moreover have "wait_check 0 (Suc 0) 0 1 timeout_late = Some TimedOut"
    by (simp add: wait_check_def finished_count_def timeout_late_facts)
  ultimately show ?thesis using assms by (simp del: run.simps)
qed

text \<open>
  Claim C9, at a failing input: logging as the standard library sets it up, a batch of
  one task whose agent does not return, a batch timeout of one tick. When the wait loop
  finds the timeout elapsed it calls \<^verbatim>\<open>logger.warn\<close> with keyword arguments before
  \<^verbatim>\<open>break\<close>; the call raises \<^verbatim>\<open>TypeError\<close>, the handler's \<^verbatim>\<open>logger.error\<close> raises
  again, and \<^verbatim>\<open>execute_agents_parallel\<close> ends with that exception instead of returning
  the partial result. With logging disabled the same call returns the empty partial
  result.
\<close>

theorem timeout_raises_type_error:
  "execute_agents_parallel env1 [0] 7 False [[Dequeue 0, Acquire 0, Dispatch 0, Tick, Tick]]
     timeout_engine = Some (Raises TypeError (Some TypeError), timeout_late) \<and>
   execute_agents_parallel quiet_env [0] 7 False [[Dequeue 0, Acquire 0, Dispatch 0, Tick, Tick]]
     timeout_engine = Some (Returns TimedOut [], timeout_late)"
proof -
  have r1: "run env1 [Dequeue 0, Acquire 0, Dispatch 0, Tick, Tick] timeout_enqueued = timeout_late"
    by (simp only: timeout_late_def)
  have a: "execute_agents_parallel env1 [0] 7 False [[Dequeue 0, Acquire 0, Dispatch 0, Tick, Tick]]
     timeout_engine = Some (reraise env1 TypeError, timeout_late)"
    using timeout_raises_when_logged
      [where st = timeout_engine and env = env1 and sid = 7 and ts = "[0]" and cb = False
         and sched = "[[Dequeue 0, Acquire 0, Dispatch 0, Tick, Tick]]"
         and ?st1.0 = timeout_enqueued
         and ?sched1.0 = "[[Dequeue 0, Acquire 0, Dispatch 0, Tick, Tick]]"
         and ?st2.0 = timeout_late]
      timeout_scenario timeout_wait [OF r1] stub_env_levels
    by simp
  have b: "execute_agents_parallel quiet_env [0] 7 False [[Dequeue 0, Acquire 0, Dispatch 0, Tick, Tick]]
     timeout_engine = Some (Returns TimedOut [], timeout_late)"
    using timeout_returns_partial_when_quiet
      [where st = timeout_engine and env = quiet_env and sid = 7 and ts = "[0]" and cb = False
         and sched = "[[Dequeue 0, Acquire 0, Dispatch 0, Tick, Tick]]"
         and ?st1.0 = timeout_enqueued
         and ?sched1.0 = "[[Dequeue 0, Acquire 0, Dispatch 0, Tick, Tick]]"
         and ?st2.0 = timeout_late]
      timeout_scenario timeout_wait [OF timeout_late_quiet] timeout_late_facts
      stub_env_levels
    by simp
  show ?thesis using a b by (simp add: reraise_def stub_env_levels)
qed

subsection \<open>A progress callback that raises\<close>








subsection \<open>Priority order\<close>

lemma task_queue_upd [simp]:
  "task_queue (upd_task t f st) = task_queue st"
  "task_queue (upd_session c g st) = task_queue st"
  "task_queue (upd_worker w h st) = task_queue st"
  by (simp_all add: upd_task_def upd_session_def upd_worker_def)

lemma task_queue_handle_exception [simp]:
  "task_queue (handle_exception w sid t m st) = task_queue st"
  by (simp add: handle_exception_def Let_def split: option.splits)

lemma task_queue_finish_task [simp]: "task_queue (finish_task w st) = task_queue st"
  by (simp add: finish_task_def)

lemma task_queue_crash [simp]: "task_queue (crash w st) = task_queue st"
  by (simp add: crash_def)

lemma task_queue_fail_task [simp]:
  "task_queue (fail_task env w sid t m st) = task_queue st"
  "task_queue (complete env w sid t st) = task_queue st"
  by (simp_all add: fail_task_def complete_def after_handler_def)

lemma task_queue_record_result [simp]: "task_queue (record_result w t c r st) = task_queue st"
  by (simp add: record_result_def Let_def)

lemma task_queue_dispatch [simp]: "task_queue (dispatch env w sid t st) = task_queue st"
  by (simp add: dispatch_def Let_def split: option.splits)

lemma task_queue_agent_done [simp]: "task_queue (agent_done env w sid t c out st) = task_queue st"
  by (simp add: agent_done_def Let_def split: agent_outcome.splits)

lemma task_queue_callback_done [simp]: "task_queue (callback_done env w sid t out st) = task_queue st"
  by (simp add: callback_done_def split: option.splits)

lemma task_queue_acquire [simp]: "task_queue (acquire w sid t st) = task_queue st"
  by (simp add: acquire_def)















subsection \<open>Cancellation\<close>

lemma cancel_call_result:
  "map_option fst cancel_call = Some (Returns SessionCancelled [0])"
  unfolding cancel_call_def ten_tasks_def cancel_events_def
  by code_simp

lemma cancel_call_statuses:
  "map_option (\<lambda>r. map (\<lambda>t. status (task_objs (snd r) t)) ten_tasks) cancel_call
   = Some (COMPLETED # replicate 9 CANCELLED)"
  unfolding cancel_call_def ten_tasks_def cancel_events_def
  by code_simp

text \<open>
  Claim C8, at a failing input: ten tasks on an engine with one worker, the session
  cancelled while the first task is with its agent. The call returns through the
  cancellation check of the wait loop with a single task, the one that was dispatched;
  the nine others do get the status \<open>CANCELLED\<close> when the worker reaches them, but the
  worker returns without appending them to a list of the session, so they are not in the
  returned result.
\<close>

theorem cancelled_tasks_missing_from_result:
  "map_option fst cancel_call = Some (Returns SessionCancelled [0]) \<and>
   map_option (\<lambda>r. map (\<lambda>t. status (task_objs (snd r) t)) ten_tasks) cancel_call
     = Some (COMPLETED # replicate 9 CANCELLED) \<and>
   length ten_tasks = 10"
proof -
  have "length ten_tasks = 10" by (simp add: ten_tasks_def)
  with cancel_call_result cancel_call_statuses show ?thesis by blast
qed

subsection \<open>Status transitions\<close>

lemma task_objs_upd [simp]:
  "task_objs (upd_session c g st) = task_objs st"
  "task_objs (upd_worker w h st) = task_objs st"
  "task_objs (upd_task t f st) = (task_objs st)(t := f (task_objs st t))"
  by (simp_all add: upd_task_def upd_session_def upd_worker_def)

lemma task_objs_finish [simp]:
  "task_objs (finish_task w st) = task_objs st"
  "task_objs (crash w st) = task_objs st"
  by (simp_all add: finish_task_def crash_def)


lemma task_objs_after_handler [simp]: "task_objs (after_handler env w st) = task_objs st"
  by (simp add: after_handler_def)



lemma status_move_refl [simp]: "status_move_ok s s"
  by (simp add: status_move_ok_def)

lemma status_move_cancelled [simp]: "status_move_ok s CANCELLED"
  by (simp add: status_move_ok_def)






lemma task_objs_worker_loop_get [simp]: "task_objs (worker_loop_get w st) = task_objs st"
  by (simp add: worker_loop_get_def split: list.splits option.splits)

lemma task_objs_acquire [simp]: "task_objs (acquire w sid t st) = task_objs st"
  by (simp add: acquire_def)







end
